theory Spec2Isabelle
  imports Main
begin

section \<open>Python values, exceptions and the environment\<close>

text \<open>
  The module \<open>checkov/common/bridgecrew/platform_integration.py\<close> holds one class,
  \<open>BcPlatformIntegration\<close>. Its methods talk to an HTTP pool, to \<open>json\<close>, to
  \<open>boto3\<close> and to the file system. Values that come back from \<open>json.loads\<close> are
  Python objects: \<open>None\<close>, booleans, integers, strings, lists and dictionaries
  (a dictionary is kept as the list of its items; floats play no part in the code
  and are left out).
\<close>

datatype pyval =
    PNone
  | PBool bool
  | PInt int
  | PStr string
  | PList "pyval list"
  | PDict "(string \<times> pyval) list"

text \<open>
  The exceptions the methods can meet. \<open>HTTPError\<close>, \<open>ClientError\<close> and
  \<open>JSONDecodeError\<close> are the three the source names in its handlers;
  \<open>KeyError\<close>, \<open>TypeError\<close>, \<open>ValueError\<close>, \<open>AttributeError\<close> and
  \<open>UnboundLocalError\<close> are raised by the interpreter itself; \<open>Exception\<close> is
  the plain \<open>Exception(message)\<close> that \<open>commit_repository\<close> raises;
  \<open>OtherError\<close> stands for anything else a library may raise.
\<close>

datatype exn =
    HTTPError string
  | ClientError string
  | JSONDecodeError string
  | KeyError string
  | TypeError
  | ValueError
  | AttributeError
  | UnboundLocalError
  | Exception string
  | OtherError string

text \<open>Python's truth value of an object, as \<open>all([...])\<close> tests it.\<close>

fun truthy :: "pyval \<Rightarrow> bool" where
  "truthy PNone = False"
| "truthy (PBool b) = b"
| "truthy (PInt i) = (i \<noteq> 0)"
| "truthy (PStr s) = (s \<noteq> [])"
| "truthy (PList xs) = (xs \<noteq> [])"
| "truthy (PDict kvs) = (kvs \<noteq> [])"

text \<open>
  \<open>obj[key]\<close> with a string key: a dictionary answers or raises \<open>KeyError\<close>;
  every other object raises \<open>TypeError\<close> (not subscriptable, or indices must be
  integers).
\<close>

fun getitem :: "pyval \<Rightarrow> string \<Rightarrow> exn + pyval" where
  "getitem (PDict kvs) k = (case map_of kvs k of None \<Rightarrow> Inl (KeyError k) | Some v \<Rightarrow> Inr v)"
| "getitem v k = Inl TypeError"

text \<open>\<open>s.split("/")\<close>: the pieces between the separators; never the empty list.\<close>

fun split_sep :: "string \<Rightarrow> string list" where
  "split_sep [] = [[]]"
| "split_sep (c # cs) =
     (if c = CHR ''/'' then [] # split_sep cs
      else (c # hd (split_sep cs)) # tl (split_sep cs))"

text \<open>\<open>s.split("/", 1)\<close>: at most one split, at the first separator.\<close>

definition split_sep_1 :: "string \<Rightarrow> string list" where
  "split_sep_1 s =
     (case dropWhile (\<lambda>c. c \<noteq> CHR ''/'') s of
        [] \<Rightarrow> [s]
      | _ # rest \<Rightarrow> [takeWhile (\<lambda>c. c \<noteq> CHR ''/'') s, rest])"

text \<open>
  \<open>repo_full_path.split("/", 1)\<close> on whatever \<open>response["path"]\<close> held: only a
  string has the method.
\<close>

fun py_split_1 :: "pyval \<Rightarrow> exn + string list" where
  "py_split_1 (PStr s) = Inr (split_sep_1 s)"
| "py_split_1 v = Inl AttributeError"

text \<open>How an f-string prints an attribute that is \<open>None\<close> or a string.\<close>

fun py_str :: "string option \<Rightarrow> string" where
  "py_str None = ''None''"
| "py_str (Some s) = s"

fun py_of :: "string option \<Rightarrow> pyval" where
  "py_of None = PNone"
| "py_of (Some s) = PStr s"

subsection \<open>The outside world\<close>

text \<open>The arguments of one \<open>http.request(method, url, body=..., headers=...)\<close>.\<close>

record http_call =
  http_method :: string
  url :: string
  body :: pyval
  headers :: "(string \<times> string option) list"

record http_response =
  status :: int
  data :: string

datatype s3_client = S3Client pyval pyval pyval string

text \<open>A directory as \<open>os.walk\<close> sees it: its sub-directories and its files, by name.\<close>

datatype dir = Dir "(string \<times> dir) list" "string list"

text \<open>
  A nested document with string keys: the shape of the reduced scan result and of the
  metadata path map. A dictionary is a finite map from keys to documents.
\<close>

datatype doc =
    Scalar string
  | Mapping "string \<Rightarrow> doc option"

text \<open>
  Everything the class calls and does not define. Each call is a function of its
  arguments. \<open>json_loads\<close> stands for \<open>json.loads(request.data.decode("utf8"))\<close>.
  \<open>SUPPORTED_FILE_EXTENSIONS\<close> and the three functions of \<open>.wrapper\<close> are imported
  by the module from other modules of the package; the class only calls them, so they
  are parameters here.
\<close>

record 'r world =
  http_request :: "http_call \<Rightarrow> exn + http_response"
  json_loads :: "string \<Rightarrow> exn + pyval"
  boto3_client :: "pyval \<Rightarrow> pyval \<Rightarrow> pyval \<Rightarrow> string \<Rightarrow> exn + s3_client"
  upload_file :: "s3_client \<Rightarrow> string \<Rightarrow> string option \<Rightarrow> string \<Rightarrow> exn option"
  scandir :: "string \<Rightarrow> dir option"
  getcwd :: string
  SUPPORTED_FILE_EXTENSIONS :: "string list"
  reduce_scan_reports :: "'r list \<Rightarrow> exn + doc"
  enrich_and_persist_checks_metadata ::
    "'r list \<Rightarrow> s3_client option \<Rightarrow> string option \<Rightarrow> string option \<Rightarrow> exn + doc"
  persist_checks_results ::
    "doc \<Rightarrow> s3_client option \<Rightarrow> string option \<Rightarrow> string option \<Rightarrow> exn option"

text \<open>
  What the outside world observes of a run, in order: the HTTP requests, the storage
  uploads, the sleep, and the log records. A log record keeps the pieces of its
  f-string.
\<close>

datatype fragment = Lit string | Fmt pyval | FmtExn exn

datatype event =
    HttpRequest http_call
  | UploadFile s3_client string "string option" string
  | Sleep nat
  | LogError "fragment list"
  | LogInfo "fragment list"

section \<open>The session object\<close>

record 'r session =
  bc_api_key :: "string option"
  s3_client :: "s3_client option"
  bucket :: "string option"
  credentials :: pyval
  repo_path :: "string option"
  timestamp :: "string option"
  scan_reports :: "'r list"

definition BC_API_URL :: string where
  "BC_API_URL = ''https://www.bridgecrew.cloud/api/v1''"

definition INTEGRATIONS_API_URL :: string where
  "INTEGRATIONS_API_URL = BC_API_URL @ ''/integrations/types/checkov''"

definition DEFAULT_REGION :: string where
  "DEFAULT_REGION = ''us-west-2''"

text \<open>\<open>__init__\<close>\<close>

definition init :: "'r session" where
  "init = \<lparr> bc_api_key = None, s3_client = None, bucket = None, credentials = PNone,
            repo_path = None, timestamp = None, scan_reports = [] \<rparr>"

subsection \<open>\<open>setup_bridgecrew_credentials\<close>\<close>

definition json_headers :: "string option \<Rightarrow> (string \<times> string option) list" where
  "json_headers key = [(''Authorization'', key), (''Content-Type'', Some ''application/json'')]"

text \<open>
  The request of the credential exchange. The body is the dictionary handed to
  \<open>json.dumps\<close>.
\<close>

definition credentials_call :: "string \<Rightarrow> string \<Rightarrow> http_call" where
  "credentials_call key repo_id =
     \<lparr> http_method = ''POST'', url = INTEGRATIONS_API_URL,
       body = PDict [(''repoId'', PStr repo_id)], headers = json_headers (Some key) \<rparr>"

text \<open>
  The body of the \<open>try\<close>. Each statement that can raise is a \<open>case\<close>; the session
  returned with an exception is the session as the statements before it left it.
\<close>

definition setup_try ::
  "'r world \<Rightarrow> string \<Rightarrow> string \<Rightarrow> 'r session \<Rightarrow> event list
     \<Rightarrow> exn option \<times> 'r session \<times> event list" where
  "setup_try w key repo_id s tr =
     (let tr1 = tr @ [HttpRequest (credentials_call key repo_id)]
      in case http_request w (credentials_call key repo_id) of
           Inl e \<Rightarrow> (Some e, s, tr1)
         | Inr request \<Rightarrow>
        (case json_loads w (data request) of
           Inl e \<Rightarrow> (Some e, s, tr1)
         | Inr response \<Rightarrow>
        (case getitem response ''path'' of
           Inl e \<Rightarrow> (Some e, s, tr1)
         | Inr repo_full_path \<Rightarrow>
        (case py_split_1 repo_full_path of
           Inl e \<Rightarrow> (Some e, s, tr1)
         | Inr [b, p] \<Rightarrow>
             (let s1 = s\<lparr>bucket := Some b, repo_path := Some p\<rparr>;
                  s2 = s1\<lparr>timestamp := Some (last (split_sep p))\<rparr>
              in case getitem response ''creds'' of
                   Inl e \<Rightarrow> (Some e, s2, tr1)
                 | Inr creds \<Rightarrow>
                (let s3 = s2\<lparr>credentials := creds\<rparr>
                 in case getitem creds ''AccessKeyId'' of
                      Inl e \<Rightarrow> (Some e, s3, tr1)
                    | Inr access_key \<Rightarrow>
                   (case getitem creds ''SecretAccessKey'' of
                      Inl e \<Rightarrow> (Some e, s3, tr1)
                    | Inr secret_key \<Rightarrow>
                   (case getitem creds ''SessionToken'' of
                      Inl e \<Rightarrow> (Some e, s3, tr1)
                    | Inr token \<Rightarrow>
                   (case boto3_client w access_key secret_key token DEFAULT_REGION of
                      Inl e \<Rightarrow> (Some e, s3, tr1)
                    | Inr client \<Rightarrow>
                        (None, s3\<lparr>s3_client := Some client\<rparr>, tr1 @ [Sleep 10]))))))
         | Inr other \<Rightarrow> (Some ValueError, s, tr1)))))"

text \<open>The three handlers: each logs and raises the exception again.\<close>

fun setup_except :: "'r session \<Rightarrow> exn \<Rightarrow> event list" where
  "setup_except s (HTTPError m) =
     [LogError [Lit ''Failed to get customer assumed role'', FmtExn (HTTPError m)]]"
| "setup_except s (ClientError m) =
     [LogError [Lit ''Failed to initiate client with credentials '', Fmt (credentials s),
                FmtExn (ClientError m)]]"
| "setup_except s (JSONDecodeError m) =
     [LogError [Lit ''Response of '', Lit INTEGRATIONS_API_URL, Lit '' is not a valid JSON'',
                FmtExn (JSONDecodeError m)]]"
| "setup_except s e = []"

definition setup_bridgecrew_credentials ::
  "'r world \<Rightarrow> string \<Rightarrow> string \<Rightarrow> 'r session \<Rightarrow> event list
     \<Rightarrow> exn option \<times> 'r session \<times> event list" where
  "setup_bridgecrew_credentials w key repo_id s tr =
     (case setup_try w key repo_id (s\<lparr>bc_api_key := Some key\<rparr>) tr of
        (None, s', tr') \<Rightarrow> (None, s', tr')
      | (Some e, s', tr') \<Rightarrow> (Some e, s', tr' @ setup_except s' e))"

subsection \<open>\<open>is_integration_configured\<close>\<close>

definition is_integration_configured :: "'r session \<Rightarrow> bool" where
  "is_integration_configured s =
     (truthy (py_of (repo_path s)) \<and> truthy (credentials s) \<and> s3_client s \<noteq> None)"

subsection \<open>\<open>commit_repository\<close>\<close>

definition commit_call :: "'r session \<Rightarrow> http_call" where
  "commit_call s =
     \<lparr> http_method = ''PUT'', url = INTEGRATIONS_API_URL,
       body = PDict [(''path'', py_of (repo_path s)), (''branch'', PStr ''master'')],
       headers = json_headers (bc_api_key s) \<rparr>"

text \<open>
  The \<open>try\<close> body assigns two local variables. \<open>request\<close> starts as \<open>None\<close>;
  \<open>response\<close> has no value until \<open>json.loads\<close> returns. The result carries the
  pending exception and both variables.
\<close>

definition commit_try ::
  "'r world \<Rightarrow> 'r session \<Rightarrow> event list
     \<Rightarrow> exn option \<times> http_response option \<times> pyval option \<times> event list" where
  "commit_try w s tr =
     (let tr1 = tr @ [HttpRequest (commit_call s)]
      in case http_request w (commit_call s) of
           Inl e \<Rightarrow> (Some e, None, None, tr1)
         | Inr request \<Rightarrow>
        (case json_loads w (data request) of
           Inl e \<Rightarrow> (Some e, Some request, None, tr1)
         | Inr response \<Rightarrow> (None, Some request, Some response, tr1)))"

fun commit_except :: "'r session \<Rightarrow> exn \<Rightarrow> event list" where
  "commit_except s (HTTPError m) =
     [LogError [Lit ''Failed to commit repository '', Lit (py_str (repo_path s)),
                FmtExn (HTTPError m)]]"
| "commit_except s (JSONDecodeError m) =
     [LogError [Lit ''Response of '', Lit INTEGRATIONS_API_URL, Lit '' is not a valid JSON'',
                FmtExn (JSONDecodeError m)]]"
| "commit_except s e = []"

definition finalize_failed :: "'r session \<Rightarrow> exn" where
  "finalize_failed s =
     Exception (''Failed to finalize repository '' @ py_str (repo_path s)
                @ '' in bridgecrew's platform'')"

text \<open>
  The \<open>finally\<close> block runs on every path. It reads \<open>request.status\<close> first and,
  only when that is 201, \<open>response["result"]\<close>. An exception raised here replaces the
  pending one; when the block ends normally the pending one goes on.
\<close>

definition commit_finally ::
  "'r session \<Rightarrow> exn option \<Rightarrow> http_response option \<Rightarrow> pyval option \<Rightarrow> event list
     \<Rightarrow> exn option \<times> event list" where
  "commit_finally s pending request response tr =
     (case request of
        None \<Rightarrow> (Some AttributeError, tr)
      | Some rq \<Rightarrow>
          if status rq = 201 then
            (case response of
               None \<Rightarrow> (Some UnboundLocalError, tr)
             | Some rsp \<Rightarrow>
                (case getitem rsp ''result'' of
                   Inl e \<Rightarrow> (Some e, tr)
                 | Inr v \<Rightarrow>
                     if v = PStr ''Success''
                     then (pending,
                           tr @ [LogInfo [Lit ''Finalize repository '', Lit (py_str (repo_path s)),
                                          Lit '' in bridgecrew's platform'']])
                     else (Some (finalize_failed s), tr)))
          else (Some (finalize_failed s), tr))"

definition commit_repository ::
  "'r world \<Rightarrow> 'r session \<Rightarrow> event list \<Rightarrow> exn option \<times> 'r session \<times> event list" where
  "commit_repository w s tr =
     (case commit_try w s tr of
        (pending, request, response, tr1) \<Rightarrow>
          (let tr2 = (case pending of None \<Rightarrow> tr1 | Some e \<Rightarrow> tr1 @ commit_except s e)
           in case commit_finally s pending request response tr2 of
                (r, tr3) \<Rightarrow> (r, s, tr3)))"

section \<open>Paths\<close>

text \<open>
  The functions of \<open>os.path\<close> (POSIX flavour) that \<open>persist_repository\<close> and
  \<open>_persist_file\<close> call, written after the library's own code.
\<close>

definition starts_with :: "string \<Rightarrow> string \<Rightarrow> bool" where
  "starts_with pre s = (take (length pre) s = pre)"

definition ends_with_sep :: "string \<Rightarrow> bool" where
  "ends_with_sep s = (s \<noteq> [] \<and> last s = CHR ''/'')"

definition isabs :: "string \<Rightarrow> bool" where
  "isabs s = starts_with ''/'' s"

text \<open>\<open>os.path.join(a, b)\<close>\<close>

definition path_join :: "string \<Rightarrow> string \<Rightarrow> string" where
  "path_join a b =
     (if starts_with ''/'' b then b
      else if a = [] \<or> ends_with_sep a then a @ b
      else a @ ''/'' @ b)"

text \<open>\<open>"/".join(comps)\<close>\<close>

fun sep_join :: "string list \<Rightarrow> string" where
  "sep_join [] = []"
| "sep_join [x] = x"
| "sep_join (x # y # ys) = x @ ''/'' @ sep_join (y # ys)"

text \<open>\<open>p.rfind(c)\<close>: the last index of the character, or -1.\<close>

definition rfind :: "char \<Rightarrow> string \<Rightarrow> int" where
  "rfind c p =
     (if c \<in> set p then int (length p) - 1 - int (length (takeWhile (\<lambda>x. x \<noteq> c) (rev p)))
      else - 1)"

text \<open>
  The loop of \<open>genericpath._splitext\<close> that skips the leading dots of the file name:
  true when a character other than a dot stands before the last dot.
\<close>

function has_stem :: "string \<Rightarrow> nat \<Rightarrow> nat \<Rightarrow> bool" where
  "has_stem p filenameIndex dotIndex =
     (if filenameIndex < dotIndex then
        (if take 1 (drop filenameIndex p) \<noteq> ''.'' then True
         else has_stem p (filenameIndex + 1) dotIndex)
      else False)"
  by pat_completeness auto
termination
  by (relation "measure (\<lambda>(p, i, d). d - i)") auto

definition splitext :: "string \<Rightarrow> string \<times> string" where
  "splitext p =
     (let sepIndex = rfind (CHR ''/'') p;
          dotIndex = rfind (CHR ''.'') p
      in if dotIndex > sepIndex \<and> has_stem p (nat (sepIndex + 1)) (nat dotIndex)
         then (take (nat dotIndex) p, drop (nat dotIndex) p)
         else (p, []))"

text \<open>
  \<open>posixpath.normpath\<close>. The loop over the components keeps a stack
  \<open>new_comps\<close>; \<open>initial_slashes\<close> is 0, 1 or 2.
\<close>

definition initial_slashes_of :: "string \<Rightarrow> nat" where
  "initial_slashes_of path =
     (if starts_with ''/'' path
      then (if starts_with ''//'' path \<and> \<not> starts_with ''///'' path then 2 else 1)
      else 0)"

fun norm_loop :: "nat \<Rightarrow> string list \<Rightarrow> string list \<Rightarrow> string list" where
  "norm_loop initial_slashes new_comps [] = new_comps"
| "norm_loop initial_slashes new_comps (part # comps) =
     (if part = [] \<or> part = ''.'' then norm_loop initial_slashes new_comps comps
      else if part \<noteq> ''..'' \<or> (initial_slashes = 0 \<and> new_comps = [])
                \<or> (new_comps \<noteq> [] \<and> last new_comps = ''..'')
        then norm_loop initial_slashes (new_comps @ [part]) comps
      else if new_comps \<noteq> [] then norm_loop initial_slashes (butlast new_comps) comps
      else norm_loop initial_slashes new_comps comps)"

definition normpath :: "string \<Rightarrow> string" where
  "normpath path =
     (if path = [] then ''.''
      else
        (let initial_slashes = initial_slashes_of path;
             comps = norm_loop initial_slashes [] (split_sep path);
             path' = replicate initial_slashes (CHR ''/'') @ sep_join comps
         in if path' = [] then ''.'' else path'))"

text \<open>\<open>os.path.abspath\<close>, with the working directory as an argument.\<close>

definition abspath :: "string \<Rightarrow> string \<Rightarrow> string" where
  "abspath cwd path = normpath (if isabs path then path else path_join cwd path)"

text \<open>
  \<open>os.path.commonprefix\<close> of two lists: the library compares the smaller and the
  larger of the two element by element, which for two lists is their longest common
  prefix.
\<close>

fun commonprefix :: "string list \<Rightarrow> string list \<Rightarrow> string list" where
  "commonprefix (x # xs) (y # ys) = (if x = y then x # commonprefix xs ys else [])"
| "commonprefix xs ys = []"

text \<open>\<open>os.path.relpath(path, start)\<close>\<close>

definition relpath :: "string \<Rightarrow> string \<Rightarrow> string \<Rightarrow> exn + string" where
  "relpath cwd path start =
     (if path = [] then Inl ValueError
      else
        (let start_list = filter (\<lambda>x. x \<noteq> []) (split_sep (abspath cwd start));
             path_list = filter (\<lambda>x. x \<noteq> []) (split_sep (abspath cwd path));
             i = length (commonprefix start_list path_list);
             rel_list = replicate (length start_list - i) ''..'' @ drop i path_list
         in if rel_list = [] then Inr ''.''
            else Inr (foldl path_join (hd rel_list) (tl rel_list))))"

text \<open>
  \<open>os.walk(top)\<close>, top down: the directory itself, then each sub-directory in turn
  under the joined path. A top that cannot be listed yields nothing.
\<close>

fun walk :: "string \<Rightarrow> dir \<Rightarrow> (string \<times> string list \<times> string list) list"
  and walk_subdirs :: "string \<Rightarrow> (string \<times> dir) list \<Rightarrow> (string \<times> string list \<times> string list) list"
where
  "walk root (Dir ds fs) = (root, map fst ds, fs) # walk_subdirs root ds"
| "walk_subdirs root [] = []"
| "walk_subdirs root ((name, d) # ds) = walk (path_join root name) d @ walk_subdirs root ds"

definition os_walk :: "'r world \<Rightarrow> string \<Rightarrow> (string \<times> string list \<times> string list) list" where
  "os_walk w root = (case scandir w root of None \<Rightarrow> [] | Some d \<Rightarrow> walk root d)"

section \<open>Uploading the repository\<close>

subsection \<open>\<open>_persist_file\<close>\<close>

text \<open>The record that the handler of \<open>_persist_file\<close> logs.\<close>

definition persist_failure :: "string \<Rightarrow> string option \<Rightarrow> exn \<Rightarrow> event" where
  "persist_failure full_file_path bkt e =
     LogError [Lit ''failed to persist file '', Lit full_file_path,
               Lit '' into S3 bucket '', Lit (py_str bkt), FmtExn e]"

definition persist_file ::
  "'r world \<Rightarrow> string \<Rightarrow> string \<Rightarrow> 'r session \<Rightarrow> event list
     \<Rightarrow> exn option \<times> 'r session \<times> event list" where
  "persist_file w full_file_path relative_file_path s tr =
     (case repo_path s of
        None \<Rightarrow> (Some TypeError, s, tr)
      | Some p \<Rightarrow>
         (let file_object_key = path_join p relative_file_path
          in case s3_client s of
               None \<Rightarrow>
                 (Some AttributeError, s,
                  tr @ [persist_failure full_file_path (bucket s) AttributeError])
             | Some client \<Rightarrow>
                (let tr1 = tr @ [UploadFile client full_file_path (bucket s) file_object_key]
                 in case upload_file w client full_file_path (bucket s) file_object_key of
                      None \<Rightarrow> (None, s, tr1)
                    | Some e \<Rightarrow>
                        (Some e, s, tr1 @ [persist_failure full_file_path (bucket s) e]))))"

subsection \<open>\<open>persist_repository\<close>\<close>

text \<open>The inner loop, over the file names of one directory.\<close>

fun persist_files ::
  "'r world \<Rightarrow> string \<Rightarrow> string \<Rightarrow> string list \<Rightarrow> 'r session \<Rightarrow> event list
     \<Rightarrow> exn option \<times> 'r session \<times> event list" where
  "persist_files w root_dir root_path [] s tr = (None, s, tr)"
| "persist_files w root_dir root_path (file_path # f_names) s tr =
     (if snd (splitext file_path) \<in> set (SUPPORTED_FILE_EXTENSIONS w) then
        (let full_file_path = path_join root_path file_path
         in case relpath (getcwd w) full_file_path root_dir of
              Inl e \<Rightarrow> (Some e, s, tr)
            | Inr relative_file_path \<Rightarrow>
               (case persist_file w full_file_path relative_file_path s tr of
                  (None, s', tr') \<Rightarrow> persist_files w root_dir root_path f_names s' tr'
                | (Some e, s', tr') \<Rightarrow> (Some e, s', tr')))
      else persist_files w root_dir root_path f_names s tr)"

text \<open>The outer loop, over what \<open>os.walk\<close> yields.\<close>

fun persist_walk ::
  "'r world \<Rightarrow> string \<Rightarrow> (string \<times> string list \<times> string list) list \<Rightarrow> 'r session \<Rightarrow> event list
     \<Rightarrow> exn option \<times> 'r session \<times> event list" where
  "persist_walk w root_dir [] s tr = (None, s, tr)"
| "persist_walk w root_dir ((root_path, d_names, f_names) # rest) s tr =
     (case persist_files w root_dir root_path f_names s tr of
        (None, s', tr') \<Rightarrow> persist_walk w root_dir rest s' tr'
      | (Some e, s', tr') \<Rightarrow> (Some e, s', tr'))"

definition persist_repository ::
  "'r world \<Rightarrow> string \<Rightarrow> 'r session \<Rightarrow> event list \<Rightarrow> exn option \<times> 'r session \<times> event list" where
  "persist_repository w root_dir s tr = persist_walk w root_dir (os_walk w root_dir) s tr"

section \<open>Uploading the scan results\<close>

text \<open>
  Modelled from the spec: \<open>dpath.util.merge\<close> is a third-party function and the two
  documents it is applied to come from \<open>.wrapper\<close>, neither of which is among the
  sources. The spec describes the merge as a structural one over a mapping of strings
  to values or sub-mappings: mapping values are combined recursively, and a value of
  the metadata map takes precedence at its own path without disturbing sibling keys.
  The first argument is the source (the metadata map), the second the destination.
\<close>

primrec dpath_merge_from :: "doc \<Rightarrow> doc \<Rightarrow> doc" where
  "dpath_merge_from (Scalar x) = (\<lambda>dst. Scalar x)"
| "dpath_merge_from (Mapping g) = (\<lambda>dst.
     case dst of
       Scalar y \<Rightarrow> Mapping g
     | Mapping f \<Rightarrow>
         Mapping (\<lambda>k. case map_option dpath_merge_from (g k) of
                         None \<Rightarrow> f k
                       | Some into \<Rightarrow> (case f k of None \<Rightarrow> g k | Some d \<Rightarrow> Some (into d))))"

definition dpath_merge :: "doc \<Rightarrow> doc \<Rightarrow> doc" where
  "dpath_merge dst src = dpath_merge_from src dst"

subsection \<open>\<open>persist_scan_results\<close>\<close>

definition persist_scan_results ::
  "'r world \<Rightarrow> 'r list \<Rightarrow> 'r session \<Rightarrow> event list \<Rightarrow> exn option \<times> 'r session \<times> event list" where
  "persist_scan_results w reports s tr =
     (let s1 = s\<lparr>scan_reports := reports\<rparr>
      in case reduce_scan_reports w reports of
           Inl e \<Rightarrow> (Some e, s1, tr)
         | Inr reduced_scan_reports \<Rightarrow>
        (case enrich_and_persist_checks_metadata w reports (s3_client s1) (bucket s1) (repo_path s1) of
           Inl e \<Rightarrow> (Some e, s1, tr)
         | Inr checks_metadata_paths \<Rightarrow>
             (persist_checks_results w (dpath_merge reduced_scan_reports checks_metadata_paths)
                (s3_client s1) (bucket s1) (repo_path s1), s1, tr)))"

section \<open>Notions used to state the properties\<close>

text \<open>
  A credential-exchange response as the platform documents it: a dictionary with a
  string under \<open>path\<close> and, under \<open>creds\<close>, a dictionary that has the three
  credential fields.
\<close>

definition valid_credential_response :: "pyval \<Rightarrow> bool" where
  "valid_credential_response r =
     (case getitem r ''path'' of
        Inr (PStr p) \<Rightarrow>
          (case getitem r ''creds'' of
             Inr (PDict cs) \<Rightarrow>
               map_of cs ''AccessKeyId'' \<noteq> None \<and> map_of cs ''SecretAccessKey'' \<noteq> None
               \<and> map_of cs ''SessionToken'' \<noteq> None
           | _ \<Rightarrow> False)
      | _ \<Rightarrow> False)"


text \<open>The three parts of what a method returns.\<close>

abbreviation raised :: "exn option \<times> 's \<times> event list \<Rightarrow> exn option" where
  "raised r \<equiv> fst r"

abbreviation session_after :: "exn option \<times> 's \<times> event list \<Rightarrow> 's" where
  "session_after r \<equiv> fst (snd r)"

abbreviation events_after :: "exn option \<times> 's \<times> event list \<Rightarrow> event list" where
  "events_after r \<equiv> snd (snd r)"

text \<open>The HTTP requests among the events of a run.\<close>

fun is_http_request :: "event \<Rightarrow> bool" where
  "is_http_request (HttpRequest call) = True"
| "is_http_request e = False"

fun is_upload :: "event \<Rightarrow> bool" where
  "is_upload (UploadFile c f b k) = True"
| "is_upload e = False"

text \<open>
  A name that a directory entry can have: not empty, without a separator, and neither
  of the two special entries.
\<close>

definition entry_name :: "string \<Rightarrow> bool" where
  "entry_name n = (n \<noteq> [] \<and> CHR ''/'' \<notin> set n \<and> n \<noteq> ''.'' \<and> n \<noteq> ''..'')"

fun entry_names :: "dir \<Rightarrow> bool"
  and entry_names_subdirs :: "(string \<times> dir) list \<Rightarrow> bool"
where
  "entry_names (Dir ds fs) = (list_all entry_name fs \<and> entry_names_subdirs ds)"
| "entry_names_subdirs [] = True"
| "entry_names_subdirs ((name, d) # ds) =
     (entry_name name \<and> entry_names d \<and> entry_names_subdirs ds)"

text \<open>
  The files of a tree, each as the list of names that leads to it from the root, in
  the order in which \<open>os.walk\<close> meets them.
\<close>

fun tree_files :: "dir \<Rightarrow> string list list"
  and tree_files_subdirs :: "(string \<times> dir) list \<Rightarrow> string list list"
where
  "tree_files (Dir ds fs) = map (\<lambda>f. [f]) fs @ tree_files_subdirs ds"
| "tree_files_subdirs [] = []"
| "tree_files_subdirs ((name, d) # ds) = map ((#) name) (tree_files d) @ tree_files_subdirs ds"

text \<open>A file is eligible when the extension of its name is in the supported list.\<close>

definition eligible :: "'r world \<Rightarrow> string list \<Rightarrow> bool" where
  "eligible w names = (snd (splitext (last names)) \<in> set (SUPPORTED_FILE_EXTENSIONS w))"

text \<open>
  The upload that \<open>persist_repository\<close> owes a file: the file's full path under
  \<open>root_dir\<close>, the session's bucket, and as key the session path joined with the
  file's path relative to \<open>root_dir\<close>.
\<close>

definition upload_of :: "s3_client \<Rightarrow> string option \<Rightarrow> string \<Rightarrow> string \<Rightarrow> string list \<Rightarrow> event" where
  "upload_of client bkt session_path root_dir names =
     UploadFile client (foldl path_join root_dir names) bkt
       (path_join session_path (sep_join names))"

text \<open>
  What a list of owed uploads comes to when they are tried in order and the first
  failure ends the run: the exception, if any, and the events.
\<close>

fun attempt_uploads :: "'r world \<Rightarrow> event list \<Rightarrow> exn option \<times> event list" where
  "attempt_uploads w [] = (None, [])"
| "attempt_uploads w (UploadFile client f b k # us) =
     (case upload_file w client f b k of
        None \<Rightarrow> (case attempt_uploads w us of (r, evs) \<Rightarrow> (r, UploadFile client f b k # evs))
      | Some e \<Rightarrow> (Some e, [UploadFile client f b k, persist_failure f b e]))"
| "attempt_uploads w (ev # us) = attempt_uploads w us"

text \<open>Whether the storage accepts an upload.\<close>

fun accepted :: "'r world \<Rightarrow> event \<Rightarrow> bool" where
  "accepted w (UploadFile client f b k) = (upload_file w client f b k = None)"
| "accepted w ev = True"


text \<open>The value a document holds at a path of keys.\<close>

fun doc_get :: "doc \<Rightarrow> string list \<Rightarrow> doc option" where
  "doc_get d [] = Some d"
| "doc_get d (k # ks) =
     (case d of
        Scalar x \<Rightarrow> None
      | Mapping f \<Rightarrow> (case f k of None \<Rightarrow> None | Some d' \<Rightarrow> doc_get d' ks))"

text \<open>
  A path lies outside the paths a map names when, following it through the map, a key
  is missing from one of the map's mappings. (A path that runs into or through one of
  the map's scalars is not outside: the map names a prefix of it.)
\<close>

fun outside :: "doc \<Rightarrow> string list \<Rightarrow> bool" where
  "outside (Mapping g) (k # ks) = (case g k of None \<Rightarrow> True | Some v \<Rightarrow> outside v ks)"
| "outside d ks = False"

text \<open>
  A world with fixed answers, for running the methods on concrete inputs. A request
  with a header whose value is \<open>None\<close> is refused by the transport with
  \<open>TypeError\<close> before anything is sent; every other request gets the same answer.
  Every body parses to the same result. The client is built from the credentials,
  unless exactly one of access key and secret key is \<open>None\<close>, which \<open>boto3\<close>
  refuses as partial credentials. The file system holds one tree.
\<close>

definition canned_world ::
  "(exn + http_response) \<Rightarrow> (exn + pyval) \<Rightarrow> dir option \<Rightarrow> (string \<Rightarrow> exn option) \<Rightarrow> 'r world" where
  "canned_world answer parsed tree put =
     \<lparr> http_request = (\<lambda>call.
          if list_ex (\<lambda>header. snd header = None) (headers call) then Inl TypeError
          else answer),
       json_loads = (\<lambda>text. parsed),
       boto3_client = (\<lambda>access_key secret_key token region.
          if (access_key = PNone) = (secret_key = PNone)
          then Inr (S3Client access_key secret_key token region)
          else Inl (OtherError ''PartialCredentialsError'')),
       upload_file = (\<lambda>client full_file_path bkt key. put full_file_path),
       scandir = (\<lambda>root. tree),
       getcwd = ''/'',
       SUPPORTED_FILE_EXTENSIONS = [''.tf'', ''.yml'', ''.yaml'', ''.json'', ''.template''],
       reduce_scan_reports = (\<lambda>reports. Inr (Mapping Map.empty)),
       enrich_and_persist_checks_metadata = (\<lambda>reports client bkt path. Inr (Mapping Map.empty)),
       persist_checks_results = (\<lambda>document client bkt path. None) \<rparr>"

text \<open>Sample inputs: a full set of credentials, an answer with a given status.\<close>

definition sample_creds :: pyval where
  "sample_creds = PDict [(''AccessKeyId'', PStr ''AKIA''), (''SecretAccessKey'', PStr ''secret''),
                         (''SessionToken'', PStr ''token'')]"

definition sample_answer :: "int \<Rightarrow> exn + http_response" where
  "sample_answer code = Inr \<lparr> status = code, data = ''...'' \<rparr>"

definition sample_world :: "int \<Rightarrow> (exn + pyval) \<Rightarrow> unit world" where
  "sample_world code parsed = canned_world (sample_answer code) parsed None (\<lambda>f. None)"

text \<open>Sample documents: a reduced result, a metadata path map, and a world that hands them out.\<close>

definition sample_reduced :: doc where
  "sample_reduced = Mapping [''a'' \<mapsto> Mapping [''b'' \<mapsto> Scalar ''old'', ''c'' \<mapsto> Scalar ''kept'']]"

definition sample_paths :: doc where
  "sample_paths = Mapping [''a'' \<mapsto> Mapping [''b'' \<mapsto> Scalar ''s3/path'']]"

definition sample_results_world :: "unit world" where
  "sample_results_world =
     (canned_world (Inl (HTTPError ''unused'')) (Inl (JSONDecodeError ''unused'')) None (\<lambda>f. None))
       \<lparr> reduce_scan_reports := (\<lambda>reports. Inr sample_reduced),
         enrich_and_persist_checks_metadata := (\<lambda>reports client bkt path. Inr sample_paths),
         persist_checks_results := (\<lambda>document client bkt path.
            if doc_get document [''a'', ''c''] = Some (Scalar ''kept'') then None
            else Some (OtherError ''changed'')) \<rparr>"

text \<open>
  A configured session, two directory trees, and a world whose file system holds a
  given tree and whose storage answers by the file's path.
\<close>

definition sample_client :: s3_client where
  "sample_client = S3Client (PStr ''AKIA'') (PStr ''secret'') (PStr ''token'') DEFAULT_REGION"

definition sample_session :: "unit session" where
  "sample_session =
     \<lparr> bc_api_key = Some ''key'', s3_client = Some sample_client, bucket = Some ''bucket'',
       credentials = sample_creds, repo_path = Some ''owner/repo/1'', timestamp = Some ''1'',
       scan_reports = [] \<rparr>"

definition sample_tree :: dir where
  "sample_tree = Dir [(''modules'', Dir [] [''main.tf'', ''notes.txt''])] [''a.yaml'', ''README.md'']"


definition sample_files_world :: "dir \<Rightarrow> (string \<Rightarrow> exn option) \<Rightarrow> unit world" where
  "sample_files_world tree put =
     canned_world (Inl (HTTPError ''unused'')) (Inl (JSONDecodeError ''unused'')) (Some tree) put"

text \<open>
  Two notions for reasoning about paths: a component that is not empty and has no
  separator, and a path taken under the working directory when it is relative.
\<close>

definition clean :: "string \<Rightarrow> bool" where
  "clean x = (x \<noteq> [] \<and> CHR ''/'' \<notin> set x)"

definition under :: "string \<Rightarrow> string \<Rightarrow> string" where
  "under cwd p = (if isabs p then p else path_join cwd p)"

section \<open>Running the methods on concrete inputs\<close>

lemmas run_defs = sample_world_def sample_answer_def sample_creds_def canned_world_def
  setup_bridgecrew_credentials_def setup_try_def split_sep_1_def is_integration_configured_def
  init_def valid_credential_response_def credentials_call_def commit_call_def json_headers_def
  commit_repository_def commit_try_def commit_finally_def finalize_failed_def
  sample_session_def sample_client_def

section \<open>The commit\<close>

text \<open>
  Claim C2, as the spec states it, fails when the second condition fails because the
  parsed body has no \<open>result\<close> field: with status 201, \<open>response["result"]\<close> in
  the \<open>finally\<close> block raises \<open>KeyError\<close> for a dictionary without the key, and
  \<open>TypeError\<close> for a body that is a list; neither names the session path.
\<close>

theorem commit_without_result_counterexample:
  "raised (commit_repository (sample_world 201 (Inr (PDict [(''status'', PStr ''done'')])))
            sample_session []) = Some (KeyError ''result'')
   \<and> raised (commit_repository (sample_world 201 (Inr (PList []))) sample_session [])
       = Some TypeError
   \<and> finalize_failed sample_session
       = Exception ''Failed to finalize repository owner/repo/1 in bridgecrew's platform''"
  by (simp add: run_defs)

text \<open>
  Claim C2, amended. \<open>commit_repository\<close> returns normally only when the request was
  answered with status 201 and the parsed body holds \<open>"Success"\<close> under \<open>result\<close>.
  An answer with any other status makes the call raise the plain \<open>Exception\<close> whose
  message is \<open>Failed to finalize repository <session path> in bridgecrew's platform\<close>,
  whatever the body. An answer with status 201 whose body parses and has a \<open>result\<close>
  field makes the call return normally when the field is \<open>"Success"\<close> and raise that
  same \<open>Exception\<close> otherwise; it is not the \<open>JSONDecodeError\<close> of a malformed body.
\<close>

theorem commit_succeeds_iff_201_and_success:
  "(raised (commit_repository w s tr) = None \<longrightarrow>
      (\<exists>rq resp. http_request w (commit_call s) = Inr rq \<and> status rq = 201
         \<and> json_loads w (data rq) = Inr resp \<and> getitem resp ''result'' = Inr (PStr ''Success'')))
   \<and> (\<forall>rq. http_request w (commit_call s) = Inr rq \<longrightarrow> status rq \<noteq> 201 \<longrightarrow>
         raised (commit_repository w s tr) =
           Some (Exception (''Failed to finalize repository '' @ py_str (repo_path s)
                            @ '' in bridgecrew's platform'')))
   \<and> (\<forall>rq resp v. http_request w (commit_call s) = Inr rq \<longrightarrow> status rq = 201 \<longrightarrow>
         json_loads w (data rq) = Inr resp \<longrightarrow> getitem resp ''result'' = Inr v \<longrightarrow>
         raised (commit_repository w s tr) =
           (if v = PStr ''Success'' then None
            else Some (Exception (''Failed to finalize repository '' @ py_str (repo_path s)
                                  @ '' in bridgecrew's platform''))))"
  by (auto simp: commit_repository_def commit_try_def commit_finally_def finalize_failed_def Let_def
      split: sum.splits option.splits if_splits prod.splits)

theorem commit_succeeds_iff_201_and_success_witness:
  "raised (commit_repository (sample_world 201 (Inr (PDict [(''result'', PStr ''Success'')])))
          sample_session []) = None
   \<and> raised (commit_repository (sample_world 201 (Inr (PDict [(''result'', PStr ''Failure'')])))
          sample_session [])
       = Some (Exception ''Failed to finalize repository owner/repo/1 in bridgecrew's platform'')
   \<and> raised (commit_repository (sample_world 500 (Inr (PDict [(''result'', PStr ''Success'')])))
          sample_session [])
       = Some (Exception ''Failed to finalize repository owner/repo/1 in bridgecrew's platform'')"
  using commit_succeeds_iff_201_and_success
     [of "sample_world 201 (Inr (PDict [(''result'', PStr ''Success'')]))" sample_session "[]"]
    commit_succeeds_iff_201_and_success
     [of "sample_world 201 (Inr (PDict [(''result'', PStr ''Failure'')]))" sample_session "[]"]
    commit_succeeds_iff_201_and_success
     [of "sample_world 500 (Inr (PDict [(''result'', PStr ''Success'')]))" sample_session "[]"]
  by (simp add: sample_world_def sample_answer_def canned_world_def sample_session_def
      commit_call_def json_headers_def)

text \<open>
  Claim C3, as the spec states it, fails: the class keeps no record of a commit. Take
  a session with its key, bucket, credentials, client and session path set, and a
  platform that answers 201 and \<open>Success\<close>. A second \<open>commit_repository\<close> right
  after the first returns normally as well, and the run shows two requests.
\<close>

theorem second_commit_counterexample:
  "is_integration_configured sample_session
   \<and> raised (commit_repository (sample_world 201 (Inr (PDict [(''result'', PStr ''Success'')])))
        sample_session []) = None
   \<and> raised (commit_repository (sample_world 201 (Inr (PDict [(''result'', PStr ''Success'')])))
        (session_after (commit_repository
           (sample_world 201 (Inr (PDict [(''result'', PStr ''Success'')]))) sample_session []))
        (events_after (commit_repository
           (sample_world 201 (Inr (PDict [(''result'', PStr ''Success'')]))) sample_session [])))
       = None
   \<and> filter is_http_request
        (events_after (commit_repository (sample_world 201 (Inr (PDict [(''result'', PStr ''Success'')])))
          (session_after (commit_repository
             (sample_world 201 (Inr (PDict [(''result'', PStr ''Success'')]))) sample_session []))
          (events_after (commit_repository
             (sample_world 201 (Inr (PDict [(''result'', PStr ''Success'')]))) sample_session []))))
      = [HttpRequest (commit_call sample_session), HttpRequest (commit_call sample_session)]"
  by (simp add: run_defs)

lemma commit_except_no_request: "filter is_http_request (commit_except s e) = []"
  by (cases e) simp_all

text \<open>
  Claim C3, amended. \<open>commit_repository\<close> has no guard against a second commit:
  every call, whatever happened before, sends exactly one \<open>PUT\<close> request with the
  session path, leaves the session as it was, and its outcome does not depend on the
  events that came before.
\<close>

theorem commit_sends_one_request_every_time:
  "filter is_http_request (snd (snd (commit_repository w s tr)))
     = filter is_http_request tr @ [HttpRequest (commit_call s)]
   \<and> fst (snd (commit_repository w s tr)) = s
   \<and> fst (commit_repository w s tr) = fst (commit_repository w s tr')"
  by (auto simp: commit_repository_def commit_try_def commit_finally_def Let_def
      commit_except_no_request split: sum.splits option.splits if_splits prod.splits)

text \<open>
  Claim C4 does not hold of the code. The \<open>finally\<close> block reads \<open>request.status\<close>
  and \<open>response["result"]\<close> on every path. When \<open>http.request\<close> raises,
  \<open>request\<close> is still \<open>None\<close> and the block raises \<open>AttributeError\<close> in place of
  the \<open>HTTPError\<close>. When the body is not JSON, \<open>response\<close> was never assigned: with
  status 201 the block raises \<open>UnboundLocalError\<close>, and with another status it raises
  the same exception as for a body that parsed and reported a failure.
\<close>

theorem commit_finally_reads_unset_variables:
  "fst (commit_repository
          (canned_world (Inl (HTTPError ''timed out'')) (Inl (JSONDecodeError ''Expecting value''))
             None (\<lambda>f. None) :: unit world)
          sample_session []) = Some AttributeError
   \<and> fst (commit_repository (sample_world 201 (Inl (JSONDecodeError ''Expecting value'')))
          sample_session []) = Some UnboundLocalError
   \<and> fst (commit_repository (sample_world 500 (Inl (JSONDecodeError ''Expecting value'')))
          sample_session [])
      = fst (commit_repository (sample_world 500 (Inr (PDict [(''result'', PStr ''Failure'')])))
          sample_session [])"
  by (simp add: run_defs)

section \<open>The session after setup\<close>

lemma persist_file_session: "persist_file w f r s tr = (res, s', tr') \<Longrightarrow> s' = s"
  by (auto simp: persist_file_def Let_def split: option.splits)

lemma persist_files_session: "fst (snd (persist_files w rd rp fs s tr)) = s"
proof (induction fs arbitrary: tr)
  case Nil
  show ?case by simp
next
  case (Cons f fs)
  show ?case
    using Cons.IH
    by (auto simp: Let_def split: sum.splits prod.splits option.splits dest!: persist_file_session)
qed

lemma persist_walk_session: "fst (snd (persist_walk w rd ts s tr)) = s"
proof (induction ts arbitrary: tr)
  case Nil
  show ?case by simp
next
  case (Cons t ts)
  obtain rp ds fs where t: "t = (rp, ds, fs)" by (cases t)
  obtain r s' tr' where p: "persist_files w rd rp fs s tr = (r, s', tr')"
    by (cases "persist_files w rd rp fs s tr")
  have "s' = s" using persist_files_session [of w rd rp fs s tr] p by simp
  then show ?case using Cons.IH [of tr'] t p by (cases r) simp_all
qed




text \<open>
  Claim C9, as the spec states it, fails: \<open>persist_scan_results\<close> starts with
  \<open>self.scan_reports = scan_reports\<close>. On a session that a successful setup just
  configured, the field is the empty list before the call and the argument after it.
\<close>

theorem scan_reports_counterexample:
  "fst (setup_bridgecrew_credentials
         (sample_world 200 (Inr (PDict [(''path'', PStr ''bucket/owner/repo/1''), (''creds'', sample_creds)])))
         ''key'' ''owner/repo'' init []) = None
   \<and> is_integration_configured (fst (snd (setup_bridgecrew_credentials
         (sample_world 200 (Inr (PDict [(''path'', PStr ''bucket/owner/repo/1''), (''creds'', sample_creds)])))
         ''key'' ''owner/repo'' init [])))
   \<and> scan_reports (fst (snd (setup_bridgecrew_credentials
         (sample_world 200 (Inr (PDict [(''path'', PStr ''bucket/owner/repo/1''), (''creds'', sample_creds)])))
         ''key'' ''owner/repo'' init []))) = []
   \<and> scan_reports (fst (snd (persist_scan_results
         (sample_world 200 (Inr (PDict [(''path'', PStr ''bucket/owner/repo/1''), (''creds'', sample_creds)])))
         [()]
         (fst (snd (setup_bridgecrew_credentials
           (sample_world 200 (Inr (PDict [(''path'', PStr ''bucket/owner/repo/1''), (''creds'', sample_creds)])))
           ''key'' ''owner/repo'' init []))) []))) = [()]"
  by (simp add: run_defs persist_scan_results_def)

text \<open>
  Claim C9, amended. \<open>persist_repository\<close> and \<open>commit_repository\<close> leave every field
  of the session as it was. \<open>persist_scan_results\<close> stores its argument in
  \<open>scan_reports\<close> and leaves the other six fields as they were.
\<close>

theorem session_fields_after_setup:
  "fst (snd (persist_repository w root_dir s tr)) = s
   \<and> fst (snd (commit_repository w s tr)) = s
   \<and> fst (snd (persist_scan_results w reports s tr)) = s\<lparr>scan_reports := reports\<rparr>"
  by (auto simp: persist_repository_def persist_walk_session commit_repository_def
       persist_scan_results_def Let_def split: prod.splits sum.splits)

section \<open>Setup and the configured check\<close>

text \<open>
  Claim C10. There is a well-formed credential-exchange response, with all three
  credentials and a \<open>path\<close> that ends right after its first separator, for which
  \<open>setup_bridgecrew_credentials\<close> returns normally and leaves the empty string as
  session path, so that \<open>is_integration_configured\<close> is false afterwards.
\<close>

theorem setup_succeeds_yet_not_configured:
  "\<exists>(w :: unit world) key repo_id rq resp b.
      http_request w (credentials_call key repo_id) = Inr rq
    \<and> json_loads w (data rq) = Inr resp
    \<and> valid_credential_response resp
    \<and> getitem resp ''path'' = Inr (PStr (b @ ''/''))
    \<and> CHR ''/'' \<notin> set b
    \<and> fst (setup_bridgecrew_credentials w key repo_id init []) = None
    \<and> repo_path (fst (snd (setup_bridgecrew_credentials w key repo_id init []))) = Some []
    \<and> \<not> is_integration_configured (fst (snd (setup_bridgecrew_credentials w key repo_id init [])))"
proof -
  let ?resp = "PDict [(''path'', PStr ''bucket/''), (''creds'', sample_creds)]"
  let ?w = "sample_world 200 (Inr ?resp)"
  have "http_request ?w (credentials_call ''key'' ''owner/repo'') = Inr \<lparr> status = 200, data = ''...'' \<rparr>
    \<and> json_loads ?w (data \<lparr> status = 200, data = ''...'' \<rparr>) = Inr ?resp
    \<and> valid_credential_response ?resp
    \<and> getitem ?resp ''path'' = Inr (PStr (''bucket'' @ ''/''))
    \<and> CHR ''/'' \<notin> set ''bucket''
    \<and> fst (setup_bridgecrew_credentials ?w ''key'' ''owner/repo'' init []) = None
    \<and> repo_path (fst (snd (setup_bridgecrew_credentials ?w ''key'' ''owner/repo'' init []))) = Some []
    \<and> \<not> is_integration_configured (fst (snd (setup_bridgecrew_credentials ?w ''key'' ''owner/repo'' init [])))"
    by (simp add: run_defs)
  then show ?thesis by blast
qed

lemma split_sep_1_at_first:
  "CHR ''/'' \<notin> set b \<Longrightarrow> split_sep_1 (b @ ''/'' @ p) = [b, p]"
proof -
  assume b: "CHR ''/'' \<notin> set b"
  have d: "dropWhile (\<lambda>c. c \<noteq> CHR ''/'') (b @ ''/'' @ p) = ''/'' @ p"
    using b by (subst dropWhile_append2) auto
  have t: "takeWhile (\<lambda>c. c \<noteq> CHR ''/'') (b @ ''/'' @ p) = b"
    using b by (subst takeWhile_append2) auto
  show ?thesis by (simp add: split_sep_1_def d t del: append.simps) (simp add: d [simplified] t [simplified])
qed

text \<open>
  Claim C1, as the spec states it, fails in three ways. When the \<open>path\<close> of a valid
  response ends right after its first separator, setup returns normally with the empty
  string as session path, which the configured check counts as missing. When the
  \<open>path\<close> has no separator at all, the split yields one piece and the assignment to
  the pair raises \<open>ValueError\<close>. And when a session that is already configured meets
  a body that does not parse, setup raises and the session stays configured.
\<close>

theorem valid_response_counterexample:
  "valid_credential_response (PDict [(''path'', PStr ''bucket/''), (''creds'', sample_creds)])
   \<and> raised (setup_bridgecrew_credentials
        (sample_world 200 (Inr (PDict [(''path'', PStr ''bucket/''), (''creds'', sample_creds)])))
        ''key'' ''owner/repo'' init []) = None
   \<and> \<not> is_integration_configured (session_after (setup_bridgecrew_credentials
        (sample_world 200 (Inr (PDict [(''path'', PStr ''bucket/''), (''creds'', sample_creds)])))
        ''key'' ''owner/repo'' init []))
   \<and> valid_credential_response (PDict [(''path'', PStr ''bucket''), (''creds'', sample_creds)])
   \<and> raised (setup_bridgecrew_credentials
        (sample_world 200 (Inr (PDict [(''path'', PStr ''bucket''), (''creds'', sample_creds)])))
        ''key'' ''owner/repo'' init []) = Some ValueError
   \<and> raised (setup_bridgecrew_credentials
        (sample_world 200 (Inl (JSONDecodeError ''Expecting value'')))
        ''key'' ''owner/repo'' sample_session []) = Some (JSONDecodeError ''Expecting value'')
   \<and> is_integration_configured (session_after (setup_bridgecrew_credentials
        (sample_world 200 (Inl (JSONDecodeError ''Expecting value'')))
        ''key'' ''owner/repo'' sample_session []))"
  by (simp add: run_defs)

text \<open>
  Claim C1, amended. Let the request be answered. For a valid response whose \<open>path\<close>
  has a non-empty remainder after its first separator, and when \<open>boto3.client\<close>
  returns a client for the three credentials of this response,
  \<open>setup_bridgecrew_credentials\<close> returns normally from any session, with bucket and
  session path the two pieces of the \<open>path\<close> and that client as storage client, and
  \<open>is_integration_configured\<close> is true afterwards. On a fresh session, a body that
  does not parse makes the call raise what \<open>json.loads\<close> raised, a response without
  \<open>path\<close> makes it raise what the lookup raised (\<open>KeyError\<close>), and a response with
  a path but without \<open>creds\<close> likewise; in all three cases
  \<open>is_integration_configured\<close> is false afterwards.
\<close>

theorem setup_then_configured:
  assumes "http_request w (credentials_call key repo_id) = Inr rq"
  shows
  "(json_loads w (data rq) = Inr resp \<longrightarrow> valid_credential_response resp \<longrightarrow>
      getitem resp ''path'' = Inr (PStr (b @ ''/'' @ p)) \<longrightarrow> CHR ''/'' \<notin> set b \<longrightarrow> p \<noteq> [] \<longrightarrow>
      getitem resp ''creds'' = Inr creds \<longrightarrow>
      getitem creds ''AccessKeyId'' = Inr access_key \<longrightarrow>
      getitem creds ''SecretAccessKey'' = Inr secret_key \<longrightarrow>
      getitem creds ''SessionToken'' = Inr token \<longrightarrow>
      boto3_client w access_key secret_key token DEFAULT_REGION = Inr client \<longrightarrow>
        raised (setup_bridgecrew_credentials w key repo_id s tr) = None
        \<and> is_integration_configured (session_after (setup_bridgecrew_credentials w key repo_id s tr))
        \<and> bucket (session_after (setup_bridgecrew_credentials w key repo_id s tr)) = Some b
        \<and> repo_path (session_after (setup_bridgecrew_credentials w key repo_id s tr)) = Some p
        \<and> s3_client (session_after (setup_bridgecrew_credentials w key repo_id s tr)) = Some client)
   \<and> (json_loads w (data rq) = Inl e \<longrightarrow>
        raised (setup_bridgecrew_credentials w key repo_id init tr) = Some e
        \<and> \<not> is_integration_configured (session_after (setup_bridgecrew_credentials w key repo_id init tr)))
   \<and> (json_loads w (data rq) = Inr resp \<longrightarrow> getitem resp ''path'' = Inl e \<longrightarrow>
        raised (setup_bridgecrew_credentials w key repo_id init tr) = Some e
        \<and> \<not> is_integration_configured (session_after (setup_bridgecrew_credentials w key repo_id init tr)))
   \<and> (json_loads w (data rq) = Inr resp \<longrightarrow> getitem resp ''path'' = Inr (PStr (b @ ''/'' @ p)) \<longrightarrow>
        CHR ''/'' \<notin> set b \<longrightarrow> getitem resp ''creds'' = Inl e \<longrightarrow>
        raised (setup_bridgecrew_credentials w key repo_id init tr) = Some e
        \<and> \<not> is_integration_configured (session_after (setup_bridgecrew_credentials w key repo_id init tr)))"
proof -
  let ?r = "setup_bridgecrew_credentials w key repo_id s tr"
  let ?fresh = "setup_bridgecrew_credentials w key repo_id (init :: 'a session) tr"
  have a: "raised ?r = None \<and> is_integration_configured (session_after ?r)
        \<and> bucket (session_after ?r) = Some b \<and> repo_path (session_after ?r) = Some p
        \<and> s3_client (session_after ?r) = Some client"
    if j: "json_loads w (data rq) = Inr resp" and v: "valid_credential_response resp"
      and pth: "getitem resp ''path'' = Inr (PStr (b @ ''/'' @ p))" and b: "CHR ''/'' \<notin> set b"
      and p: "p \<noteq> []"
      and cr: "getitem resp ''creds'' = Inr creds"
      and k: "getitem creds ''AccessKeyId'' = Inr access_key"
             "getitem creds ''SecretAccessKey'' = Inr secret_key"
             "getitem creds ''SessionToken'' = Inr token"
      and cl: "boto3_client w access_key secret_key token DEFAULT_REGION = Inr client"
  proof -
    from v pth cr obtain cs where cs: "creds = PDict cs" "map_of cs ''AccessKeyId'' \<noteq> None"
      by (auto simp: valid_credential_response_def split: sum.splits pyval.splits)
    then have ne: "truthy creds" by auto
    show ?thesis
      using assms j pth cr k cl ne p split_sep_1_at_first [OF b, of p]
      by (simp add: setup_bridgecrew_credentials_def setup_try_def is_integration_configured_def)
  qed
  have e1: "raised ?fresh = Some e \<and> \<not> is_integration_configured (session_after ?fresh)"
    if "json_loads w (data rq) = Inl e"
    using assms that
    by (simp add: setup_bridgecrew_credentials_def setup_try_def is_integration_configured_def init_def)
  have e2: "raised ?fresh = Some e \<and> \<not> is_integration_configured (session_after ?fresh)"
    if "json_loads w (data rq) = Inr resp" "getitem resp ''path'' = Inl e"
    using assms that
    by (simp add: setup_bridgecrew_credentials_def setup_try_def is_integration_configured_def init_def)
  have e3: "raised ?fresh = Some e \<and> \<not> is_integration_configured (session_after ?fresh)"
    if "json_loads w (data rq) = Inr resp" "getitem resp ''path'' = Inr (PStr (b @ ''/'' @ p))"
       "CHR ''/'' \<notin> set b" "getitem resp ''creds'' = Inl e"
    using assms that split_sep_1_at_first [of b p]
    by (simp add: setup_bridgecrew_credentials_def setup_try_def is_integration_configured_def init_def)
  from a e1 e2 e3 show ?thesis by blast
qed

theorem setup_then_configured_witness:
  "raised (setup_bridgecrew_credentials
       (sample_world 200 (Inr (PDict [(''path'', PStr ''bucket/owner/repo/1''), (''creds'', sample_creds)])))
       ''key'' ''owner/repo'' (init :: unit session) []) = None
   \<and> is_integration_configured (session_after (setup_bridgecrew_credentials
       (sample_world 200 (Inr (PDict [(''path'', PStr ''bucket/owner/repo/1''), (''creds'', sample_creds)])))
       ''key'' ''owner/repo'' (init :: unit session) []))
   \<and> raised (setup_bridgecrew_credentials (sample_world 200 (Inl (JSONDecodeError ''Expecting value'')))
       ''key'' ''owner/repo'' init []) = Some (JSONDecodeError ''Expecting value'')
   \<and> \<not> is_integration_configured (session_after (setup_bridgecrew_credentials
       (sample_world 200 (Inl (JSONDecodeError ''Expecting value''))) ''key'' ''owner/repo'' init []))
   \<and> raised (setup_bridgecrew_credentials (sample_world 200 (Inr (PDict [(''creds'', sample_creds)])))
       ''key'' ''owner/repo'' init []) = Some (KeyError ''path'')
   \<and> \<not> is_integration_configured (session_after (setup_bridgecrew_credentials
       (sample_world 200 (Inr (PDict [(''creds'', sample_creds)]))) ''key'' ''owner/repo'' init []))
   \<and> raised (setup_bridgecrew_credentials (sample_world 200 (Inr (PDict [(''path'', PStr ''bucket/owner/repo/1'')])))
       ''key'' ''owner/repo'' init []) = Some (KeyError ''creds'')
   \<and> \<not> is_integration_configured (session_after (setup_bridgecrew_credentials
       (sample_world 200 (Inr (PDict [(''path'', PStr ''bucket/owner/repo/1'')]))) ''key'' ''owner/repo'' init []))"
proof -
  let ?rq = "\<lparr> status = 200, data = ''...'' \<rparr>"
  let ?good = "PDict [(''path'', PStr ''bucket/owner/repo/1''), (''creds'', sample_creds)]"
  have g: "http_request (sample_world 200 parsed) (credentials_call ''key'' ''owner/repo'') = Inr ?rq" for parsed
    by (simp add: sample_world_def sample_answer_def canned_world_def credentials_call_def json_headers_def)
  note t1 = setup_then_configured [OF g [of "Inr ?good"], where resp = ?good and b = "''bucket''"
       and p = "''owner/repo/1''" and s = init and tr = "[]" and creds = sample_creds
       and access_key = "PStr ''AKIA''" and secret_key = "PStr ''secret''" and token = "PStr ''token''"
       and client = sample_client]
  note t2 = setup_then_configured [OF g [of "Inl (JSONDecodeError ''Expecting value'')"],
       where e = "JSONDecodeError ''Expecting value''" and tr = "[]"]
  note t3 = setup_then_configured [OF g [of "Inr (PDict [(''creds'', sample_creds)])"],
       where resp = "PDict [(''creds'', sample_creds)]" and e = "KeyError ''path''" and tr = "[]"]
  note t4 = setup_then_configured [OF g [of "Inr (PDict [(''path'', PStr ''bucket/owner/repo/1'')])"],
       where resp = "PDict [(''path'', PStr ''bucket/owner/repo/1'')]" and b = "''bucket''"
       and p = "''owner/repo/1''" and e = "KeyError ''creds''" and tr = "[]"]
  have c1: "raised (setup_bridgecrew_credentials (sample_world 200 (Inr ?good)) ''key'' ''owner/repo'' (init :: unit session) []) = None
     \<and> is_integration_configured (session_after (setup_bridgecrew_credentials (sample_world 200 (Inr ?good)) ''key'' ''owner/repo'' (init :: unit session) []))"
    using t1 by (simp add: sample_world_def sample_answer_def canned_world_def
        valid_credential_response_def sample_creds_def sample_client_def)
  have c2: "raised (setup_bridgecrew_credentials (sample_world 200 (Inl (JSONDecodeError ''Expecting value'')))
       ''key'' ''owner/repo'' init []) = Some (JSONDecodeError ''Expecting value'')
   \<and> \<not> is_integration_configured (session_after (setup_bridgecrew_credentials
       (sample_world 200 (Inl (JSONDecodeError ''Expecting value''))) ''key'' ''owner/repo'' init []))"
    using t2 by (simp add: sample_world_def sample_answer_def canned_world_def)
  have c3: "raised (setup_bridgecrew_credentials (sample_world 200 (Inr (PDict [(''creds'', sample_creds)])))
       ''key'' ''owner/repo'' init []) = Some (KeyError ''path'')
   \<and> \<not> is_integration_configured (session_after (setup_bridgecrew_credentials
       (sample_world 200 (Inr (PDict [(''creds'', sample_creds)]))) ''key'' ''owner/repo'' init []))"
    using t3 by (simp add: sample_world_def sample_answer_def canned_world_def)
  have c4: "raised (setup_bridgecrew_credentials (sample_world 200 (Inr (PDict [(''path'', PStr ''bucket/owner/repo/1'')])))
       ''key'' ''owner/repo'' init []) = Some (KeyError ''creds'')
   \<and> \<not> is_integration_configured (session_after (setup_bridgecrew_credentials
       (sample_world 200 (Inr (PDict [(''path'', PStr ''bucket/owner/repo/1'')]))) ''key'' ''owner/repo'' init []))"
    using t4 by (simp add: sample_world_def sample_answer_def canned_world_def)
  from c1 c2 c3 c4 show ?thesis by blast
qed







section \<open>The merge of the metadata paths\<close>

lemma merge_scalar: "dpath_merge dst (Scalar x) = Scalar x"
  by (simp add: dpath_merge_def)

lemma merge_onto_scalar: "dpath_merge (Scalar y) (Mapping g) = Mapping g"
  by (simp add: dpath_merge_def)

lemma merge_mappings:
  "dpath_merge (Mapping f) (Mapping g) =
     Mapping (\<lambda>k. case g k of None \<Rightarrow> f k
                   | Some v \<Rightarrow> (case f k of None \<Rightarrow> Some v | Some d \<Rightarrow> Some (dpath_merge d v)))"
  by (auto simp: dpath_merge_def split: option.splits)

lemma merge_self: "dpath_merge d d = d"
proof (induction d)
  case (Scalar x)
  show ?case by (simp add: merge_scalar)
next
  case (Mapping g)
  have ih: "dpath_merge v v = v" if "g k = Some v" for k v
  proof -
    have "Some v \<in> range g" using that by (metis rangeI)
    then show ?thesis using Mapping.IH [of "Some v" v] by simp
  qed
  have "(\<lambda>k. case g k of None \<Rightarrow> g k
              | Some v \<Rightarrow> (case g k of None \<Rightarrow> Some v | Some d \<Rightarrow> Some (dpath_merge d v))) = g"
    by (rule ext) (simp add: ih split: option.splits)
  then show ?case by (simp add: merge_mappings)
qed

lemma merge_idem: "dpath_merge (dpath_merge dst src) src = dpath_merge dst src"
proof (induction src arbitrary: dst)
  case (Scalar x)
  show ?case by (simp add: merge_scalar)
next
  case (Mapping g)
  have ih: "dpath_merge (dpath_merge d v) v = dpath_merge d v" if "g k = Some v" for k v d
  proof -
    have "Some v \<in> range g" using that by (metis rangeI)
    then show ?thesis using Mapping.IH [of "Some v" v d] by simp
  qed
  show ?case
  proof (cases dst)
    case (Scalar y)
    then show ?thesis by (simp add: merge_onto_scalar merge_self)
  next
    case dst: (Mapping f)
    have "(\<lambda>k. case g k of
                 None \<Rightarrow> (case g k of None \<Rightarrow> f k
                          | Some v \<Rightarrow> (case f k of None \<Rightarrow> Some v | Some d \<Rightarrow> Some (dpath_merge d v)))
               | Some v \<Rightarrow>
                  (case (case g k of None \<Rightarrow> f k
                         | Some v \<Rightarrow> (case f k of None \<Rightarrow> Some v | Some d \<Rightarrow> Some (dpath_merge d v))) of
                     None \<Rightarrow> Some v
                   | Some d \<Rightarrow> Some (dpath_merge d v)))
          = (\<lambda>k. case g k of None \<Rightarrow> f k
                 | Some v \<Rightarrow> (case f k of None \<Rightarrow> Some v | Some d \<Rightarrow> Some (dpath_merge d v)))"
      by (rule ext) (simp add: ih merge_self split: option.splits)
    then show ?thesis by (simp add: dst merge_mappings)
  qed
qed

lemma outside_absent: "outside src p \<Longrightarrow> doc_get src p = None"
  by (induction src p rule: outside.induct) (auto split: option.splits)

lemma merge_frame: "outside src p \<Longrightarrow> doc_get (dpath_merge dst src) p = doc_get dst p"
proof (induction src p arbitrary: dst rule: outside.induct)
  case (1 g k ks)
  show ?case
  proof (cases dst)
    case (Scalar y)
    then show ?thesis using 1 outside_absent [of _ ks]
      by (auto simp: merge_onto_scalar split: option.splits)
  next
    case (Mapping f)
    then show ?thesis using 1 outside_absent [of _ ks]
      by (auto simp: merge_mappings split: option.splits)
  qed
qed simp_all

text \<open>
  Claim C7. \<open>persist_scan_results\<close> hands to \<open>persist_checks_results\<close> the reduced
  result merged with the metadata path map. The merge leaves the reduced result as it
  was at every path outside the paths the map names, and merging the same map a second
  time changes nothing.
\<close>

theorem merge_keeps_outside_and_is_idempotent:
  "(outside src p \<longrightarrow> doc_get (dpath_merge dst src) p = doc_get dst p)
   \<and> dpath_merge (dpath_merge dst src) src = dpath_merge dst src
   \<and> (reduce_scan_reports w reports = Inr dst \<longrightarrow>
        enrich_and_persist_checks_metadata w reports (s3_client s) (bucket s) (repo_path s) = Inr src \<longrightarrow>
        raised (persist_scan_results w reports s tr)
          = persist_checks_results w (dpath_merge dst src) (s3_client s) (bucket s) (repo_path s))"
  by (simp add: merge_frame merge_idem persist_scan_results_def)

theorem merge_keeps_outside_and_is_idempotent_witness:
  "outside sample_paths [''a'', ''c'']
   \<and> doc_get (dpath_merge sample_reduced sample_paths) [''a'', ''c''] = Some (Scalar ''kept'')
   \<and> raised (persist_scan_results sample_results_world [()] init []) = None"
proof -
  note t = merge_keeps_outside_and_is_idempotent
    [of sample_paths "[''a'', ''c'']" sample_reduced sample_results_world "[()]" init "[]"]
  have o: "outside sample_paths [''a'', ''c'']"
    by (simp add: sample_paths_def)
  have g: "doc_get sample_reduced [''a'', ''c''] = Some (Scalar ''kept'')"
    by (simp add: sample_reduced_def)
  have 1: "doc_get (dpath_merge sample_reduced sample_paths) [''a'', ''c''] = Some (Scalar ''kept'')"
    using t o g by simp
  have r: "reduce_scan_reports sample_results_world [()] = Inr sample_reduced"
    by (simp add: sample_results_world_def)
  have e: "enrich_and_persist_checks_metadata sample_results_world [()]
             (s3_client (init :: unit session)) (bucket (init :: unit session)) (repo_path (init :: unit session))
           = Inr sample_paths"
    by (simp add: sample_results_world_def)
  have "raised (persist_scan_results sample_results_world [()] init [])
     = persist_checks_results sample_results_world (dpath_merge sample_reduced sample_paths)
         (s3_client (init :: unit session)) (bucket (init :: unit session)) (repo_path (init :: unit session))"
    using t r e by blast
  then have 2: "raised (persist_scan_results sample_results_world [()] init []) = None"
    using 1 by (simp add: sample_results_world_def)
  from o 1 2 show ?thesis by blast
qed

section \<open>What \<open>persist_repository\<close> uploads\<close>

subsection \<open>Splitting and normalising paths\<close>

lemma split_sep_not_Nil [simp]: "split_sep s \<noteq> []"
  by (induction s) auto

lemma split_sep_append: "split_sep (a @ CHR ''/'' # b) = split_sep a @ split_sep b"
  by (induction a) (auto simp: neq_Nil_conv)

lemma split_sep_no_sep: "CHR ''/'' \<notin> set c \<Longrightarrow> split_sep c = [c]"
  by (induction c) auto

lemma split_sep_pieces: "x \<in> set (split_sep s) \<Longrightarrow> CHR ''/'' \<notin> set x"
proof (induction s arbitrary: x)
  case Nil
  then show ?case by simp
next
  case (Cons c s)
  obtain y ys where ys: "split_sep s = y # ys" by (cases "split_sep s") auto
  show ?case using Cons ys by (auto split: if_splits)
qed

lemma split_sep_slashes: "split_sep (replicate k (CHR ''/'') @ s) = replicate k [] @ split_sep s"
  by (induction k) auto

lemma split_sep_join:
  "list_all clean comps \<Longrightarrow> filter (\<lambda>x. x \<noteq> []) (split_sep (sep_join comps)) = comps"
proof (induction comps rule: sep_join.induct)
  case 1
  show ?case by simp
next
  case (2 x)
  then show ?case by (simp add: clean_def split_sep_no_sep)
next
  case (3 x y ys)
  then show ?case
    using split_sep_append [of x "sep_join (y # ys)"]
    by (simp add: clean_def split_sep_no_sep)
qed

lemma norm_loop_append:
  "norm_loop i new (xs @ ys) = norm_loop i (norm_loop i new xs) ys"
  by (induction xs arbitrary: new) auto

lemma norm_loop_pos: "0 < i \<Longrightarrow> norm_loop i new cs = norm_loop (Suc 0) new cs"
  by (induction cs arbitrary: new) auto

lemma norm_loop_names: "list_all entry_name cs \<Longrightarrow> norm_loop i new cs = new @ cs"
  by (induction cs arbitrary: new) (auto simp: entry_name_def)

lemma norm_loop_clean:
  "list_all clean new \<Longrightarrow> (\<forall>x \<in> set cs. CHR ''/'' \<notin> set x) \<Longrightarrow> list_all clean (norm_loop i new cs)"
proof (induction cs arbitrary: new)
  case Nil
  then show ?case by simp
next
  case (Cons c cs)
  have b: "list_all clean (butlast new)" using Cons.prems(1)
    by (auto simp: list_all_iff dest: in_set_butlastD)
  have a: "c \<noteq> [] \<Longrightarrow> list_all clean (new @ [c])" using Cons.prems
    by (simp add: clean_def list_all_iff)
  show ?case using Cons a b by auto
qed

text \<open>The components of an absolute path after \<open>abspath\<close>, as \<open>relpath\<close> lists them.\<close>

lemma isabs_Cons: "isabs q = (\<exists>r. q = CHR ''/'' # r)"
  by (cases q) (auto simp: isabs_def starts_with_def)

lemma initial_slashes_pos: "isabs q \<Longrightarrow> 0 < initial_slashes_of q"
  by (simp add: initial_slashes_of_def isabs_def)

lemma normpath_components:
  assumes "isabs q"
  shows "filter (\<lambda>x. x \<noteq> []) (split_sep (normpath q)) = norm_loop (Suc 0) [] (split_sep q)"
proof -
  let ?i = "initial_slashes_of q"
  let ?comps = "norm_loop ?i [] (split_sep q)"
  have pos: "0 < ?i" using assms by (rule initial_slashes_pos)
  have q: "q \<noteq> []" using assms by (auto simp: isabs_Cons)
  have cl: "list_all clean ?comps"
    by (rule norm_loop_clean) (auto dest: split_sep_pieces)
  have ne: "replicate ?i (CHR ''/'') @ sep_join ?comps \<noteq> []" using pos by auto
  have "normpath q = replicate ?i (CHR ''/'') @ sep_join ?comps"
    using q pos by (simp add: normpath_def Let_def)
  then have "filter (\<lambda>x. x \<noteq> []) (split_sep (normpath q)) = ?comps"
    using split_sep_join [OF cl] by (simp add: split_sep_slashes)
  then show ?thesis using norm_loop_pos [OF pos] by simp
qed

lemma name_not_abs: "entry_name c \<Longrightarrow> \<not> starts_with ''/'' c"
  by (cases c) (auto simp: entry_name_def starts_with_def)

lemma path_join_name:
  "entry_name c \<Longrightarrow> path_join x c = (if x = [] \<or> ends_with_sep x then x @ c else x @ ''/'' @ c)"
  by (simp add: path_join_def name_not_abs)

lemma isabs_path_join: "isabs x \<Longrightarrow> entry_name c \<Longrightarrow> isabs (path_join x c)"
  by (auto simp: path_join_name isabs_Cons)

lemma components_path_join:
  assumes "isabs x" "entry_name c"
  shows "norm_loop (Suc 0) [] (split_sep (path_join x c)) = norm_loop (Suc 0) [] (split_sep x) @ [c]"
proof (cases "ends_with_sep x")
  case True
  then obtain y where y: "x = y @ ''/''"
    by (metis append_butlast_last_id ends_with_sep_def)
  have c: "split_sep c = [c]" using assms(2) by (simp add: entry_name_def split_sep_no_sep)
  have 1: "split_sep (path_join x c) = split_sep y @ [c]"
    using assms(2) True y split_sep_append [of y c] c by (simp add: path_join_name)
  have 2: "split_sep x = split_sep y @ [[]]"
    using y split_sep_append [of y "[]"] by simp
  show ?thesis
    using assms(2) by (simp add: 1 2 norm_loop_append entry_name_def)
next
  case False
  have x: "x \<noteq> []" using assms(1) by (auto simp: isabs_Cons)
  have c: "split_sep c = [c]" using assms(2) by (simp add: entry_name_def split_sep_no_sep)
  have 1: "split_sep (path_join x c) = split_sep x @ [c]"
    using assms(2) False x split_sep_append [of x c] c by (simp add: path_join_name)
  show ?thesis
    using assms(2) by (simp add: 1 norm_loop_append entry_name_def)
qed

lemma components_foldl:
  "isabs x \<Longrightarrow> list_all entry_name cs \<Longrightarrow>
     isabs (foldl path_join x cs)
     \<and> norm_loop (Suc 0) [] (split_sep (foldl path_join x cs))
         = norm_loop (Suc 0) [] (split_sep x) @ cs"
proof (induction cs arbitrary: x)
  case Nil
  then show ?case by simp
next
  case (Cons c cs)
  then show ?case
    using Cons.IH [of "path_join x c"] by (simp add: isabs_path_join components_path_join)
qed

lemma under_path_join:
  assumes "isabs cwd" "entry_name c"
  shows "under cwd (path_join x c) = path_join (under cwd x) c"
proof (cases "isabs x")
  case True
  then show ?thesis using assms(2) by (simp add: under_def isabs_path_join)
next
  case False
  obtain r where cwd: "cwd = CHR ''/'' # r" using assms(1) by (auto simp: isabs_Cons)
  have nc: "\<not> starts_with ''/'' c" using assms(2) by (rule name_not_abs)
  show ?thesis
  proof (cases x)
    case Nil
    then show ?thesis
      using assms(2) nc cwd
      by (simp add: under_def isabs_def path_join_def ends_with_sep_def starts_with_def)
  next
    case (Cons a y)
    then have a: "a \<noteq> CHR ''/''" using False by (simp add: isabs_Cons)
    have nx: "\<not> isabs (path_join x c)"
      using Cons a assms(2) by (simp add: path_join_name isabs_Cons)
    have e: "ends_with_sep (cwd @ z @ x) = ends_with_sep x" for z
      using Cons by (simp add: ends_with_sep_def)
    show ?thesis
      using False nx nc Cons a cwd e [of "[]"] e [of "''/''"]
      by (simp add: under_def path_join_def starts_with_def)
  qed
qed

lemma under_foldl:
  "isabs cwd \<Longrightarrow> list_all entry_name cs \<Longrightarrow>
     under cwd (foldl path_join x cs) = foldl path_join (under cwd x) cs"
  by (induction cs arbitrary: x) (simp_all add: under_path_join)

lemma isabs_under: "isabs cwd \<Longrightarrow> isabs (under cwd x)"
  by (cases x) (auto simp: under_def isabs_Cons path_join_def starts_with_def ends_with_sep_def)

lemma relpath_lists:
  assumes "isabs cwd" "list_all entry_name cs"
  shows "filter (\<lambda>x. x \<noteq> []) (split_sep (abspath cwd (foldl path_join root cs)))
       = filter (\<lambda>x. x \<noteq> []) (split_sep (abspath cwd root)) @ cs"
proof -
  have u: "isabs (under cwd root)" using assms(1) by (rule isabs_under)
  have "abspath cwd p = normpath (under cwd p)" for p
    by (simp add: abspath_def under_def)
  then show ?thesis
    using components_foldl [OF u assms(2)] normpath_components [OF u]
      normpath_components [of "foldl path_join (under cwd root) cs"]
    by (simp add: under_foldl [OF assms])
qed

lemma commonprefix_append: "commonprefix xs (xs @ ys) = xs"
  by (induction xs) auto

lemma name_last: "entry_name c \<Longrightarrow> c \<noteq> [] \<and> last c \<noteq> CHR ''/''"
  by (metis entry_name_def last_in_set)

lemma path_join_not_Nil: "entry_name c \<Longrightarrow> path_join x c \<noteq> []"
  by (simp add: path_join_name entry_name_def)

lemma foldl_path_join_not_Nil:
  "x \<noteq> [] \<Longrightarrow> list_all entry_name cs \<Longrightarrow> foldl path_join x cs \<noteq> []"
  by (induction cs arbitrary: x) (simp_all add: path_join_not_Nil)

lemma foldl_path_join_names:
  "a \<noteq> [] \<Longrightarrow> last a \<noteq> CHR ''/'' \<Longrightarrow> list_all entry_name cs \<Longrightarrow>
     foldl path_join a cs = a @ concat (map ((#) (CHR ''/'')) cs)"
proof (induction cs arbitrary: a)
  case Nil
  then show ?case by simp
next
  case (Cons c cs)
  have c: "c \<noteq> []" "last c \<noteq> CHR ''/''"
    using Cons.prems(3) name_last [of c] by auto
  have j: "path_join a c = a @ ''/'' @ c"
    using Cons.prems by (simp add: path_join_name ends_with_sep_def)
  show ?case
    using Cons.IH [of "a @ ''/'' @ c"] Cons.prems c by (simp add: j)
qed

lemma sep_join_concat: "sep_join (a # cs) = a @ concat (map ((#) (CHR ''/'')) cs)"
  by (induction cs arbitrary: a) auto

lemma relpath_of_file:
  assumes "isabs cwd" "list_all entry_name cs" "cs \<noteq> []"
  shows "relpath cwd (foldl path_join root cs) root = Inr (sep_join cs)"
proof -
  obtain c cs' where cs: "cs = c # cs'" using assms(3) by (cases cs) auto
  have c: "c \<noteq> []" "last c \<noteq> CHR ''/''" "list_all entry_name cs'" "entry_name c"
    using assms(2) cs name_last [of c] by auto
  have ne: "foldl path_join root cs \<noteq> []"
    using cs c foldl_path_join_not_Nil [of "path_join root c" cs'] by (simp add: path_join_not_Nil)
  have j: "foldl path_join (hd cs) (tl cs) = sep_join cs"
    using c cs by (simp add: foldl_path_join_names sep_join_concat)
  show ?thesis
    using ne assms(3) j
    by (simp add: relpath_def Let_def relpath_lists [OF assms(1,2)] commonprefix_append)
qed

subsection \<open>The two loops\<close>

lemma attempt_uploads_append:
  "attempt_uploads w (xs @ ys) =
     (case attempt_uploads w xs of
        (None, evs) \<Rightarrow> (case attempt_uploads w ys of (r, evs') \<Rightarrow> (r, evs @ evs'))
      | (Some e, evs) \<Rightarrow> (Some e, evs))"
  by (induction w xs rule: attempt_uploads.induct) (auto split: option.splits prod.splits)

lemma persist_walk_append:
  "persist_walk w root (xs @ ys) s tr =
     (case persist_walk w root xs s tr of
        (None, s', tr') \<Rightarrow> persist_walk w root ys s' tr'
      | (Some e, s', tr') \<Rightarrow> (Some e, s', tr'))"
  by (induction xs arbitrary: s tr) (auto split: option.splits prod.splits)

lemma persist_files_uploads:
  assumes "repo_path s = Some p" "s3_client s = Some c" "isabs (getcwd w)"
    and "list_all entry_name dirs"
  shows "list_all entry_name fs \<Longrightarrow>
     persist_files w root (foldl path_join root dirs) fs s tr =
       (case attempt_uploads w (map (upload_of c (bucket s) p root)
               (filter (eligible w) (map (\<lambda>f. dirs @ [f]) fs))) of
          (r, evs) \<Rightarrow> (r, s, tr @ evs))"
proof (induction fs arbitrary: tr)
  case Nil
  show ?case by simp
next
  case (Cons f fs)
  have rel: "relpath (getcwd w) (path_join (foldl path_join root dirs) f) root = Inr (sep_join (dirs @ [f]))"
    using relpath_of_file [OF assms(3), of "dirs @ [f]" root] assms(4) Cons.prems by simp
  show ?case
  proof (cases "eligible w (dirs @ [f])")
    case False
    then show ?thesis using Cons by (simp add: eligible_def)
  next
    case True
    show ?thesis
    proof (cases "upload_file w c (path_join (foldl path_join root dirs) f) (bucket s)
                    (path_join p (sep_join (dirs @ [f])))")
      case None
      then show ?thesis
        using True Cons.prems Cons.IH [of "tr @ [upload_of c (bucket s) p root (dirs @ [f])]"] rel assms(1,2)
        by (simp add: eligible_def persist_file_def upload_of_def Let_def split: prod.splits)
    next
      case (Some e)
      then show ?thesis
        using True rel assms(1,2)
        by (simp add: eligible_def persist_file_def upload_of_def Let_def)
    qed
  qed
qed

lemma persist_walk_uploads:
  assumes "repo_path s = Some p" "s3_client s = Some c" "isabs (getcwd w)"
  shows "entry_names d \<Longrightarrow> list_all entry_name dirs \<Longrightarrow>
      persist_walk w root (walk (foldl path_join root dirs) d) s tr =
       (case attempt_uploads w (map (upload_of c (bucket s) p root)
               (filter (eligible w) (map ((@) dirs) (tree_files d)))) of
          (r, evs) \<Rightarrow> (r, s, tr @ evs))"
    and "entry_names_subdirs ds \<Longrightarrow> list_all entry_name dirs \<Longrightarrow>
      persist_walk w root (walk_subdirs (foldl path_join root dirs) ds) s tr =
       (case attempt_uploads w (map (upload_of c (bucket s) p root)
               (filter (eligible w) (map ((@) dirs) (tree_files_subdirs ds)))) of
          (r, evs) \<Rightarrow> (r, s, tr @ evs))"
proof (induction d and ds arbitrary: dirs tr and dirs tr rule: entry_names_entry_names_subdirs.induct)
  case (1 ds fs)
  let ?up = "upload_of c (bucket s) p root"
  let ?A = "map ?up (filter (eligible w) (map (\<lambda>f. dirs @ [f]) fs))"
  let ?B = "map ?up (filter (eligible w) (map ((@) dirs) (tree_files_subdirs ds)))"
  obtain ra ea where a: "attempt_uploads w ?A = (ra, ea)" by (cases "attempt_uploads w ?A")
  obtain rb eb where b: "attempt_uploads w ?B = (rb, eb)" by (cases "attempt_uploads w ?B")
  have l: "map ?up (filter (eligible w) (map ((@) dirs) (tree_files (Dir ds fs)))) = ?A @ ?B"
    by (simp add: comp_def)
  have f: "persist_files w root (foldl path_join root dirs) fs s tr = (ra, s, tr @ ea)"
    using persist_files_uploads [OF assms "1.prems"(2), of fs root tr] "1.prems"(1) a by simp
  have g: "persist_walk w root (walk_subdirs (foldl path_join root dirs) ds) s (tr @ ea)
             = (rb, s, tr @ ea @ eb)"
    using "1.IH" [of dirs "tr @ ea"] "1.prems" b by simp
  show ?case
    unfolding l attempt_uploads_append a b
    using f g by (cases ra) simp_all
next
  case 2
  show ?case by simp
next
  case (3 name d ds)
  let ?up = "upload_of c (bucket s) p root"
  let ?A = "map ?up (filter (eligible w) (map (\<lambda>x. dirs @ name # x) (tree_files d)))"
  let ?B = "map ?up (filter (eligible w) (map ((@) dirs) (tree_files_subdirs ds)))"
  obtain ra ea where a: "attempt_uploads w ?A = (ra, ea)" by (cases "attempt_uploads w ?A")
  obtain rb eb where b: "attempt_uploads w ?B = (rb, eb)" by (cases "attempt_uploads w ?B")
  have d: "list_all entry_name (dirs @ [name])" using "3.prems" by simp
  have m: "(\<lambda>x. dirs @ name # x) = (@) (dirs @ [name])" by (rule ext) simp
  have l: "map ?up (filter (eligible w) (map ((@) dirs) (tree_files_subdirs ((name, d) # ds)))) = ?A @ ?B"
    by (simp add: comp_def)
  have f: "persist_walk w root (walk (path_join (foldl path_join root dirs) name) d) s tr
             = (ra, s, tr @ ea)"
    using "3.IH"(1) [of "dirs @ [name]" tr] "3.prems" d a by simp
  have g: "persist_walk w root (walk_subdirs (foldl path_join root dirs) ds) s (tr @ ea)
             = (rb, s, tr @ ea @ eb)"
    using "3.IH"(2) [of dirs "tr @ ea"] "3.prems" b by simp
  show ?case
    unfolding l attempt_uploads_append a b
    using f g by (cases ra) (simp_all add: persist_walk_append)
qed

lemma attempt_all_accepted:
  "list_all (accepted w) us \<Longrightarrow> list_all is_upload us \<Longrightarrow> attempt_uploads w us = (None, us)"
  by (induction w us rule: attempt_uploads.induct) auto


lemma uploads_are_uploads: "list_all is_upload (map (upload_of client b p root) xs)"
  by (induction xs) (simp_all add: upload_of_def)

lemma persist_repository_uploads:
  assumes "scandir w root_dir = Some d" "entry_names d" "isabs (getcwd w)"
    and "repo_path s = Some session_path" "s3_client s = Some client"
  shows "persist_repository w root_dir s tr =
     (case attempt_uploads w (map (upload_of client (bucket s) session_path root_dir)
                                (filter (eligible w) (tree_files d))) of
        (r, evs) \<Rightarrow> (r, s, tr @ evs))"
proof -
  have e: "map ((@) []) (tree_files d) = tree_files d" by (induction "tree_files d") simp_all
  show ?thesis
    using persist_walk_uploads(1) [OF assms(4,5,3) assms(2), of "[]" root_dir tr] assms(1)
    by (simp add: persist_repository_def os_walk_def e)
qed

text \<open>
  Claim C5. Let the tree under \<open>root_dir\<close> have proper entry names, the working
  directory be absolute, the session hold a session path and a client, and the storage
  accept every upload the tree owes. Then \<open>persist_repository\<close> returns normally and
  adds to the run exactly one upload for each file whose extension is supported, in
  the order of the walk, under the key that joins the session path with the file's
  path relative to \<open>root_dir\<close>; files with other extensions add nothing.
\<close>

theorem persist_repository_uploads_supported_files:
  assumes "scandir w root_dir = Some d" "entry_names d" "isabs (getcwd w)"
    and "repo_path s = Some session_path" "s3_client s = Some client"
    and "list_all (accepted w) (map (upload_of client (bucket s) session_path root_dir)
                                  (filter (eligible w) (tree_files d)))"
  shows "persist_repository w root_dir s tr =
     (None, s, tr @ map (upload_of client (bucket s) session_path root_dir)
                      (filter (eligible w) (tree_files d)))"
  using persist_repository_uploads [OF assms(1-5), of tr]
    attempt_all_accepted [OF assms(6) uploads_are_uploads]
  by simp

theorem persist_repository_uploads_supported_files_witness:
  "persist_repository (sample_files_world sample_tree (\<lambda>f. None)) ''/repo'' sample_session [] =
     (None, sample_session,
      [UploadFile sample_client ''/repo/a.yaml'' (Some ''bucket'') ''owner/repo/1/a.yaml'',
       UploadFile sample_client ''/repo/modules/main.tf'' (Some ''bucket'')
         ''owner/repo/1/modules/main.tf''])"
proof -
  let ?w = "sample_files_world sample_tree (\<lambda>f. None)"
  have el: "filter (eligible ?w) (tree_files sample_tree) = [[''a.yaml''], [''modules'', ''main.tf'']]"
    by (simp add: eligible_def splitext_def rfind_def Let_def
        sample_files_world_def canned_world_def sample_tree_def)
  have 1: "scandir ?w ''/repo'' = Some sample_tree"
    by (simp add: sample_files_world_def canned_world_def)
  have 2: "entry_names sample_tree"
    by (simp add: sample_tree_def entry_name_def)
  have 3: "isabs (getcwd ?w)"
    by (simp add: sample_files_world_def canned_world_def isabs_def starts_with_def)
  have 4: "repo_path sample_session = Some ''owner/repo/1''"
    by (simp add: sample_session_def)
  have 5: "s3_client sample_session = Some sample_client"
    by (simp add: sample_session_def)
  have 6: "list_all (accepted ?w) (map (upload_of sample_client (bucket sample_session) ''owner/repo/1'' ''/repo'')
                                  (filter (eligible ?w) (tree_files sample_tree)))"
    by (simp add: el upload_of_def) (simp add: sample_files_world_def canned_world_def)
  show ?thesis
    using persist_repository_uploads_supported_files [OF 1 2 3 4 5 6, of "[]"]
    by (simp add: el upload_of_def path_join_def starts_with_def ends_with_sep_def sample_session_def)
qed



end
